theory Spec2Isabelle
  imports Complex_Main "HOL-Library.AList" "HOL-Library.Sublist"
begin

section \<open>Strings and POSIX paths\<close>

text \<open>
  The script manipulates paths with \<^verbatim>\<open>os.path\<close>. The functions below follow CPython's
  \<^verbatim>\<open>posixpath\<close> module on strings; \<^verbatim>\<open>str.split('/')\<close> and \<^verbatim>\<open>'/'.join\<close> are
  \<open>split_sep\<close> and \<open>join_sep\<close>.
\<close>

definition startswith :: "string \<Rightarrow> string \<Rightarrow> bool" where
  "startswith s p = prefix p s"

definition endswith :: "string \<Rightarrow> string \<Rightarrow> bool" where
  "endswith s x = suffix x s"

fun split_sep :: "string \<Rightarrow> string list" where
  "split_sep [] = [[]]"
| "split_sep (c # cs) =
     (if c = CHR ''/'' then [] # split_sep cs
      else (case split_sep cs of x # xs \<Rightarrow> (c # x) # xs | [] \<Rightarrow> [[c]]))"

fun join_sep :: "string list \<Rightarrow> string" where
  "join_sep [] = []"
| "join_sep [x] = x"
| "join_sep (x # y # ys) = x @ ''/'' @ join_sep (y # ys)"

text \<open>\<^verbatim>\<open>s.rfind(c)\<close>: the index of the last occurrence of \<open>c\<close>, or \<open>-1\<close>.\<close>

definition rfind :: "string \<Rightarrow> char \<Rightarrow> int" where
  "rfind s c = int (length (dropWhile (\<lambda>x. x \<noteq> c) (rev s))) - 1"

definition rstrip_sep :: "string \<Rightarrow> string" where
  "rstrip_sep s = rev (dropWhile (\<lambda>x. x = CHR ''/'') (rev s))"

definition isabs :: "string \<Rightarrow> bool" where
  "isabs s = startswith s ''/''"

text \<open>\<^verbatim>\<open>os.path.join(a, b)\<close> with two arguments.\<close>

definition path_join :: "string \<Rightarrow> string \<Rightarrow> string" where
  "path_join a b =
     (if startswith b ''/'' then b
      else if a = [] \<or> endswith a ''/'' then a @ b
      else a @ ''/'' @ b)"

text \<open>\<^verbatim>\<open>os.path.dirname(p)\<close>.\<close>

definition dirname :: "string \<Rightarrow> string" where
  "dirname p =
     (let i = nat (rfind p CHR ''/'' + 1);
          head = take i p
      in if head \<noteq> [] \<and> head \<noteq> replicate (length head) CHR ''/''
         then rstrip_sep head else head)"

text \<open>
  \<^verbatim>\<open>os.path.splitext(p)\<close>: the extension starts at the last dot of the last path
  component, unless only dots precede it there (the loop over
  \<^verbatim>\<open>p[sepIndex+1 : dotIndex]\<close> that looks for a character other than a dot).
\<close>

definition splitext :: "string \<Rightarrow> string \<times> string" where
  "splitext p =
     (let sepIndex = rfind p CHR ''/'';
          dotIndex = rfind p CHR ''.''
      in if dotIndex > sepIndex \<and>
            list_ex (\<lambda>c. c \<noteq> CHR ''.'') (drop (nat (sepIndex + 1)) (take (nat dotIndex) p))
         then (take (nat dotIndex) p, drop (nat dotIndex) p)
         else (p, []))"

text \<open>
  \<^verbatim>\<open>os.path.normpath\<close>: one step of its loop over the components, then the function.
  \<open>ini\<close> says whether the path starts with a slash.
\<close>

definition norm_step :: "bool \<Rightarrow> string list \<Rightarrow> string \<Rightarrow> string list" where
  "norm_step ini new_comps c =
     (if c = [] \<or> c = ''.'' then new_comps
      else if c \<noteq> ''..'' \<or> (\<not> ini \<and> new_comps = []) \<or>
              (new_comps \<noteq> [] \<and> last new_comps = ''..'')
      then new_comps @ [c]
      else if new_comps \<noteq> [] then butlast new_comps
      else new_comps)"

definition initial_slashes :: "string \<Rightarrow> nat" where
  "initial_slashes path =
     (if startswith path ''/''
      then (if startswith path ''//'' \<and> \<not> startswith path ''///'' then 2 else 1)
      else 0)"

definition normpath :: "string \<Rightarrow> string" where
  "normpath path =
     (if path = [] then ''.''
      else
        let comps = foldl (norm_step (0 < initial_slashes path)) [] (split_sep path);
            path' = replicate (initial_slashes path) CHR ''/'' @ join_sep comps
        in if path' = [] then ''.'' else path')"

text \<open>\<^verbatim>\<open>os.path.abspath\<close>, with the working directory \<^verbatim>\<open>os.getcwd()\<close> as a parameter.\<close>

definition abspath :: "string \<Rightarrow> string \<Rightarrow> string" where
  "abspath cwd path = normpath (if isabs path then path else path_join cwd path)"

text \<open>\<^verbatim>\<open>os.path.commonprefix\<close> of two component lists.\<close>

fun commonprefix :: "string list \<Rightarrow> string list \<Rightarrow> string list" where
  "commonprefix (x # xs) (y # ys) = (if x = y then x # commonprefix xs ys else [])"
| "commonprefix _ _ = []"

definition components :: "string \<Rightarrow> string \<Rightarrow> string list" where
  "components cwd p = filter (\<lambda>x. x \<noteq> []) (split_sep (abspath cwd p))"

datatype exn =
    CalledProcessError int
  | FileNotFoundError
  | FileExistsError
  | NotADirectoryError
  | IsADirectoryError
  | ValueError
  | LibraryError string

text \<open>
  \<^verbatim>\<open>os.path.relpath(path, start)\<close>; it raises \<^verbatim>\<open>ValueError\<close> on an empty path.
\<close>

definition relpath :: "string \<Rightarrow> string \<Rightarrow> string \<Rightarrow> exn + string" where
  "relpath cwd path start =
     (if path = [] then Inl ValueError
      else
        let start_list = components cwd start;
            path_list = components cwd path;
            i = length (commonprefix start_list path_list);
            rel_list = replicate (length start_list - i) ''..'' @ drop i path_list
        in if rel_list = [] then Inr ''.'' else Inr (join_sep rel_list))"

section \<open>The file system\<close>

text \<open>
  Files on disk are a tree: a regular file with its contents, or a directory with its
  entries in the order a scan lists them. A path string is resolved lexically
  (\<open>components\<close>, the components of its absolute normal form); there are no symbolic links
  and no permissions.
\<close>

datatype node = File string | Dir "(string \<times> node) list"

fun lookup :: "node \<Rightarrow> string list \<Rightarrow> node option" where
  "lookup t [] = Some t"
| "lookup (File c) (n # ns) = None"
| "lookup (Dir es) (n # ns) =
     (case map_of es n of None \<Rightarrow> None | Some t \<Rightarrow> lookup t ns)"

text \<open>\<^verbatim>\<open>os.makedirs(p, exist_ok=True)\<close> on the tree.\<close>

fun mkdirs :: "node \<Rightarrow> string list \<Rightarrow> exn + node" where
  "mkdirs (Dir es) [] = Inr (Dir es)"
| "mkdirs (File c) [] = Inl FileExistsError"
| "mkdirs (File c) (n # ns) = Inl NotADirectoryError"
| "mkdirs (Dir es) (n # ns) =
     (case mkdirs (case map_of es n of None \<Rightarrow> Dir [] | Some t \<Rightarrow> t) ns of
        Inl e \<Rightarrow> Inl e
      | Inr t' \<Rightarrow> Inr (Dir (AList.update n t' es)))"

text \<open>\<^verbatim>\<open>open(p, "w")\<close> followed by writing \<open>c\<close>: creates the file or replaces its contents.\<close>

fun write_file :: "node \<Rightarrow> string list \<Rightarrow> string \<Rightarrow> exn + node" where
  "write_file (File old) [] c = Inr (File c)"
| "write_file (Dir es) [] c = Inl IsADirectoryError"
| "write_file (File old) (n # ns) c = Inl NotADirectoryError"
| "write_file (Dir es) (n # ns) c =
     (case map_of es n of
        None \<Rightarrow> (if ns = [] then Inr (Dir (AList.update n (File c) es)) else Inl FileNotFoundError)
      | Some t \<Rightarrow>
          (case write_file t ns c of
             Inl e \<Rightarrow> Inl e
           | Inr t' \<Rightarrow> Inr (Dir (AList.update n t' es))))"

text \<open>\<^verbatim>\<open>os.remove(p)\<close>.\<close>

fun remove_file :: "node \<Rightarrow> string list \<Rightarrow> exn + node" where
  "remove_file t [] = Inl IsADirectoryError"
| "remove_file (File c) (n # ns) = Inl NotADirectoryError"
| "remove_file (Dir es) (n # ns) =
     (case map_of es n of
        None \<Rightarrow> Inl FileNotFoundError
      | Some t \<Rightarrow>
          (if ns = [] then
             (case t of
                File c \<Rightarrow> Inr (Dir (AList.delete n es))
              | Dir es' \<Rightarrow> Inl IsADirectoryError)
           else
             (case remove_file t ns of
                Inl e \<Rightarrow> Inl e
              | Inr t' \<Rightarrow> Inr (Dir (AList.update n t' es)))))"

text \<open>The contents of a file that is already open: unchanged when \<open>p\<close> is no file.\<close>

definition set_contents :: "node \<Rightarrow> string list \<Rightarrow> string \<Rightarrow> node" where
  "set_contents t ps c = (case write_file t ps c of Inl e \<Rightarrow> t | Inr t' \<Rightarrow> t')"

text \<open>
  What \<^verbatim>\<open>os.scandir\<close> lists for \<^verbatim>\<open>os.walk\<close>: the names of the sub-directories and of the
  other entries, in directory order.
\<close>

fun is_Dir :: "node \<Rightarrow> bool" where
  "is_Dir (Dir es) = True"
| "is_Dir (File c) = False"

definition dir_names :: "(string \<times> node) list \<Rightarrow> string list" where
  "dir_names es = map fst (filter (\<lambda>e. is_Dir (snd e)) es)"

definition file_names :: "(string \<times> node) list \<Rightarrow> string list" where
  "file_names es = map fst (filter (\<lambda>e. \<not> is_Dir (snd e)) es)"

section \<open>The process state\<close>

text \<open>
  The state a run acts on: the file system, the working directory, what was printed to
  standard output (each message is the format string the script prints, with its
  arguments), what the argument parser wrote to standard error, and the calls made into
  the geometry library, in order.
\<close>

datatype bbox = Bbox int int

datatype lib_call =
    LoadSvg string
  | Zoom real
  | Normalize bbox
  | SimplifyArcs
  | SimplifyHeuristic
  | Split int
  | SaveSvg string

datatype message =
    PreprocessedSaved string
  | ErrorPreprocessing string exn
  | SkippingPreprocessingFailed string
  | SkippingEmpty string
  | SavedProcessed string
  | ErrorProcessing string exn
  | ProcessingComplete string
  | ProcessingFailed string
  | BatchComplete nat nat

record world =
  fs :: node
  cwd :: string
  stdout :: "message list"
  stderr :: "string list"
  calls :: "lib_call list"

text \<open>
  A statement either returns a value or raises an exception (an instance of Python's
  \<^verbatim>\<open>Exception\<close>), and leaves a new state either way.
\<close>

type_synonym 'a io = "world \<Rightarrow> (exn + 'a) \<times> world"

definition ret :: "'a \<Rightarrow> 'a io" where
  "ret x w = (Inr x, w)"

definition bind :: "'a io \<Rightarrow> ('a \<Rightarrow> 'b io) \<Rightarrow> 'b io" where
  "bind m f w = (case m w of (Inl e, w') \<Rightarrow> (Inl e, w') | (Inr x, w') \<Rightarrow> f x w')"

text \<open>\<^verbatim>\<open>try: m except C as e: h(e)\<close>, where \<open>catches\<close> says which exceptions are a \<open>C\<close>.\<close>

definition try_except :: "'a io \<Rightarrow> (exn \<Rightarrow> bool) \<Rightarrow> (exn \<Rightarrow> 'a io) \<Rightarrow> 'a io" where
  "try_except m catches h w =
     (case m w of
        (Inl e, w') \<Rightarrow> (if catches e then h e w' else (Inl e, w'))
      | (Inr x, w') \<Rightarrow> (Inr x, w'))"

fun is_CalledProcessError :: "exn \<Rightarrow> bool" where
  "is_CalledProcessError (CalledProcessError rc) = True"
| "is_CalledProcessError e = False"

definition print :: "message \<Rightarrow> unit io" where
  "print m w = (Inr (), w\<lparr>stdout := stdout w @ [m]\<rparr>)"

subsection \<open>Operating-system calls\<close>

text \<open>The empty path names nothing: every call on it fails.\<close>

definition resolve :: "world \<Rightarrow> string \<Rightarrow> string list option" where
  "resolve w p = (if p = [] then None else Some (components (cwd w) p))"

definition os_makedirs :: "string \<Rightarrow> unit io" where
  "os_makedirs p w =
     (case resolve w p of
        None \<Rightarrow> (Inl FileNotFoundError, w)
      | Some ps \<Rightarrow>
          (case mkdirs (fs w) ps of
             Inl e \<Rightarrow> (Inl e, w)
           | Inr t \<Rightarrow> (Inr (), w\<lparr>fs := t\<rparr>)))"

text \<open>\<^verbatim>\<open>open(p, "w")\<close>: the file exists and is empty afterwards.\<close>

definition open_w :: "string \<Rightarrow> unit io" where
  "open_w p w =
     (case resolve w p of
        None \<Rightarrow> (Inl FileNotFoundError, w)
      | Some ps \<Rightarrow>
          (case write_file (fs w) ps [] of
             Inl e \<Rightarrow> (Inl e, w)
           | Inr t \<Rightarrow> (Inr (), w\<lparr>fs := t\<rparr>)))"

text \<open>
  \<^verbatim>\<open>os.path.getsize(p)\<close>. A directory reports the size of its inode, which is not zero
  (4096 on the usual file systems).
\<close>

definition os_path_getsize :: "string \<Rightarrow> nat io" where
  "os_path_getsize p w =
     (case resolve w p of
        None \<Rightarrow> (Inl FileNotFoundError, w)
      | Some ps \<Rightarrow>
          (case lookup (fs w) ps of
             None \<Rightarrow> (Inl FileNotFoundError, w)
           | Some (File c) \<Rightarrow> (Inr (length c), w)
           | Some (Dir es) \<Rightarrow> (Inr 4096, w)))"

definition os_path_exists :: "string \<Rightarrow> bool io" where
  "os_path_exists p w =
     (case resolve w p of
        None \<Rightarrow> (Inr False, w)
      | Some ps \<Rightarrow> (Inr (lookup (fs w) ps \<noteq> None), w))"

definition os_remove :: "string \<Rightarrow> unit io" where
  "os_remove p w =
     (case resolve w p of
        None \<Rightarrow> (Inl FileNotFoundError, w)
      | Some ps \<Rightarrow>
          (case remove_file (fs w) ps of
             Inl e \<Rightarrow> (Inl e, w)
           | Inr t \<Rightarrow> (Inr (), w\<lparr>fs := t\<rparr>)))"

text \<open>
  One scan of \<^verbatim>\<open>os.walk\<close>: \<open>None\<close> when the directory cannot be listed (the walk skips
  it silently).
\<close>

definition os_scandir :: "string \<Rightarrow> world \<Rightarrow> (string list \<times> string list) option" where
  "os_scandir p w =
     (case resolve w p of
        None \<Rightarrow> None
      | Some ps \<Rightarrow>
          (case lookup (fs w) ps of
             Some (Dir es) \<Rightarrow> Some (dir_names es, file_names es)
           | _ \<Rightarrow> None))"

definition os_path_relpath :: "string \<Rightarrow> string \<Rightarrow> string io" where
  "os_path_relpath path start w = (relpath (cwd w) path start, w)"

section \<open>The external collaborators\<close>

text \<open>
  The script implements neither the \<^verbatim>\<open>picosvg\<close> executable nor the \<^verbatim>\<open>deepsvg\<close> library;
  both are parameters of the model. A run of the executable does not start at all
  (\<^verbatim>\<open>subprocess.run\<close> raises), or exits with a status after writing some text to its
  standard output. A library method returns the document it changed in place, or raises.
  Saving gives the text written, or raises and says what text, if any, it left in the file.
  The scale is a Python float that the script only hands on to \<^verbatim>\<open>zoom\<close>; it is a real
  number here.
\<close>

datatype proc_result = LaunchFailed exn | Exited int string

datatype save_result = Saved string | SaveFailed exn "string option"

record 'svg env =
  run_picosvg :: "string \<Rightarrow> world \<Rightarrow> proc_result"
  do_load_svg :: "string \<Rightarrow> exn + 'svg"
  do_zoom :: "real \<Rightarrow> 'svg \<Rightarrow> exn + 'svg"
  do_normalize :: "bbox \<Rightarrow> 'svg \<Rightarrow> exn + 'svg"
  do_simplify_arcs :: "'svg \<Rightarrow> exn + 'svg"
  do_simplify_heuristic :: "'svg \<Rightarrow> exn + 'svg"
  do_split :: "int \<Rightarrow> 'svg \<Rightarrow> exn + 'svg"
  do_save_svg :: "'svg \<Rightarrow> save_result"

text \<open>
  \<^verbatim>\<open>subprocess.run(["picosvg", input_path], stdout=output_file, check=True)\<close>, with
  \<open>output_path\<close> the file that \<^verbatim>\<open>output_file\<close> has open: the output of the child goes
  to the file whatever its exit status, and a status other than zero raises
  \<^verbatim>\<open>CalledProcessError\<close>.
\<close>

definition subprocess_run :: "'svg env \<Rightarrow> string \<Rightarrow> string \<Rightarrow> unit io" where
  "subprocess_run E input_path output_path w =
     (case run_picosvg E input_path w of
        LaunchFailed e \<Rightarrow> (Inl e, w)
      | Exited rc out \<Rightarrow>
          (let w' = w\<lparr>fs := set_contents (fs w) (components (cwd w) output_path) out\<rparr>
           in if rc \<noteq> 0 then (Inl (CalledProcessError rc), w') else (Inr (), w')))"

text \<open>A call of a library method is recorded, then gives the method's result.\<close>

definition lib_call :: "lib_call \<Rightarrow> exn + 'a \<Rightarrow> 'a io" where
  "lib_call c r w = (r, w\<lparr>calls := calls w @ [c]\<rparr>)"

definition SVG_load_svg :: "'svg env \<Rightarrow> string \<Rightarrow> 'svg io" where
  "SVG_load_svg E p w =
     lib_call (LoadSvg p)
       (case resolve w p of
          None \<Rightarrow> Inl FileNotFoundError
        | Some ps \<Rightarrow>
            (case lookup (fs w) ps of
               None \<Rightarrow> Inl FileNotFoundError
             | Some (Dir es) \<Rightarrow> Inl IsADirectoryError
             | Some (File c) \<Rightarrow> do_load_svg E c)) w"

definition svg_zoom :: "'svg env \<Rightarrow> real \<Rightarrow> 'svg \<Rightarrow> 'svg io" where
  "svg_zoom E factor svg = lib_call (Zoom factor) (do_zoom E factor svg)"

definition svg_normalize :: "'svg env \<Rightarrow> bbox \<Rightarrow> 'svg \<Rightarrow> 'svg io" where
  "svg_normalize E viewbox svg = lib_call (Normalize viewbox) (do_normalize E viewbox svg)"

definition svg_simplify_arcs :: "'svg env \<Rightarrow> 'svg \<Rightarrow> 'svg io" where
  "svg_simplify_arcs E svg = lib_call SimplifyArcs (do_simplify_arcs E svg)"

definition svg_simplify_heuristic :: "'svg env \<Rightarrow> 'svg \<Rightarrow> 'svg io" where
  "svg_simplify_heuristic E svg = lib_call SimplifyHeuristic (do_simplify_heuristic E svg)"

definition svg_split :: "'svg env \<Rightarrow> int \<Rightarrow> 'svg \<Rightarrow> 'svg io" where
  "svg_split E max_dist svg = lib_call (Split max_dist) (do_split E max_dist svg)"

definition write_text :: "string \<Rightarrow> string \<Rightarrow> unit io" where
  "write_text p c w =
     (case resolve w p of
        None \<Rightarrow> (Inl FileNotFoundError, w)
      | Some ps \<Rightarrow>
          (case write_file (fs w) ps c of
             Inl e \<Rightarrow> (Inl e, w)
           | Inr t \<Rightarrow> (Inr (), w\<lparr>fs := t\<rparr>)))"

definition svg_save_svg :: "'svg env \<Rightarrow> 'svg \<Rightarrow> string \<Rightarrow> unit io" where
  "svg_save_svg E svg p =
     bind (lib_call (SaveSvg p) (Inr ())) (\<lambda>_.
       case do_save_svg E svg of
         Saved c \<Rightarrow> write_text p c
       | SaveFailed e None \<Rightarrow> (\<lambda>w. (Inl e, w))
       | SaveFailed e (Some c) \<Rightarrow> bind (write_text p c) (\<lambda>_ w. (Inl e, w)))"

section \<open>The script\<close>

definition preprocess_svg :: "'svg env \<Rightarrow> string \<Rightarrow> string \<Rightarrow> bool io" where
  "preprocess_svg E input_path output_path =
     try_except
       (bind (open_w output_path) (\<lambda>_.
        bind (subprocess_run E input_path output_path) (\<lambda>_.
        bind (print (PreprocessedSaved output_path)) (\<lambda>_.
        ret True))))
       is_CalledProcessError
       (\<lambda>e. bind (print (ErrorPreprocessing input_path e)) (\<lambda>_. ret False))"

definition process_svg ::
  "'svg env \<Rightarrow> 'svg \<Rightarrow> real \<Rightarrow> int \<Rightarrow> int \<Rightarrow> bool \<Rightarrow> int \<Rightarrow> 'svg io" where
  "process_svg E svg scale width height simplify max_dist =
     bind (svg_zoom E scale svg) (\<lambda>svg.
     bind (svg_normalize E (Bbox width height) svg) (\<lambda>svg.
     if simplify then
       bind (svg_simplify_arcs E svg) (\<lambda>svg.
       bind (svg_simplify_heuristic E svg) (\<lambda>svg.
       svg_split E max_dist svg))
     else ret svg))"

definition process_single_file ::
  "'svg env \<Rightarrow> string \<Rightarrow> string \<Rightarrow> real \<Rightarrow> int \<Rightarrow> int \<Rightarrow> bool \<Rightarrow> int \<Rightarrow> bool io" where
  "process_single_file E input_path output_path scale width height simplify max_dist =
     try_except
       (bind (os_makedirs (if dirname output_path = [] then ''.'' else dirname output_path)) (\<lambda>_.
        bind (preprocess_svg E input_path output_path) (\<lambda>ok.
        if \<not> ok then
          bind (print (SkippingPreprocessingFailed input_path)) (\<lambda>_. ret False)
        else
          bind (os_path_getsize output_path) (\<lambda>n_bytes.
          if n_bytes = 0 then
            bind (print (SkippingEmpty output_path)) (\<lambda>_.
            bind (os_remove output_path) (\<lambda>_.
            ret False))
          else
            bind (SVG_load_svg E output_path) (\<lambda>svg.
            bind (process_svg E svg scale width height simplify max_dist) (\<lambda>svg.
            bind (svg_save_svg E svg output_path) (\<lambda>_.
            bind (print (SavedProcessed output_path)) (\<lambda>_.
            ret True))))))))
       (\<lambda>e. True)
       (\<lambda>e. bind (print (ErrorProcessing input_path e)) (\<lambda>_.
            bind (os_path_exists output_path) (\<lambda>found.
            bind (if found then os_remove output_path else ret ()) (\<lambda>_.
            ret False))))"

text \<open>
  The inner loop of \<open>process_directory\<close> over the file names of one directory the walk
  yielded; \<open>cnt\<close> is \<open>(success_count, failure_count)\<close>.
\<close>

fun process_files ::
  "'svg env \<Rightarrow> string \<Rightarrow> string \<Rightarrow> real \<Rightarrow> int \<Rightarrow> int \<Rightarrow> bool \<Rightarrow> int \<Rightarrow>
   string \<Rightarrow> string list \<Rightarrow> nat \<times> nat \<Rightarrow> (nat \<times> nat) io" where
  "process_files E input_dir output_dir scale width height simplify max_dist root_dir [] cnt w =
     (Inr cnt, w)"
| "process_files E input_dir output_dir scale width height simplify max_dist root_dir
     (filename # files) cnt w =
     (if \<not> endswith filename ''.svg'' then
        process_files E input_dir output_dir scale width height simplify max_dist root_dir files cnt w
      else
        (let input_path = path_join root_dir filename in
         case os_path_relpath input_path input_dir w of
           (Inl e, w') \<Rightarrow> (Inl e, w')
         | (Inr relative_path, w') \<Rightarrow>
             (let output_path = path_join output_dir relative_path in
              case process_single_file E input_path output_path
                     scale width height simplify max_dist w' of
                (Inl e, w'') \<Rightarrow> (Inl e, w'')
              | (Inr ok, w'') \<Rightarrow>
                  process_files E input_dir output_dir scale width height simplify max_dist
                    root_dir files
                    (if ok then (fst cnt + 1, snd cnt) else (fst cnt, snd cnt + 1)) w'')))"

text \<open>
  The outer loop: \<^verbatim>\<open>os.walk\<close> is a generator, so a directory is scanned when the loop
  reaches it, after the files of the directories before it were processed. \<open>stack\<close> holds
  the directories still to scan. Every scan uses one unit of \<open>fuel\<close>; \<open>None\<close> means the
  fuel ran out before the walk ended.
\<close>

fun walk_loop ::
  "nat \<Rightarrow> 'svg env \<Rightarrow> string \<Rightarrow> string \<Rightarrow> real \<Rightarrow> int \<Rightarrow> int \<Rightarrow> bool \<Rightarrow> int \<Rightarrow>
   string list \<Rightarrow> nat \<times> nat \<Rightarrow> world \<Rightarrow> ((exn + nat \<times> nat) \<times> world) option" where
  "walk_loop fuel E input_dir output_dir scale width height simplify max_dist [] cnt w =
     Some (Inr cnt, w)"
| "walk_loop 0 E input_dir output_dir scale width height simplify max_dist (top_dir # stack) cnt w =
     None"
| "walk_loop (Suc fuel) E input_dir output_dir scale width height simplify max_dist
     (top_dir # stack) cnt w =
     (case os_scandir top_dir w of
        None \<Rightarrow>
          walk_loop fuel E input_dir output_dir scale width height simplify max_dist stack cnt w
      | Some (dirs, files) \<Rightarrow>
          (case process_files E input_dir output_dir scale width height simplify max_dist
                  top_dir files cnt w of
             (Inl e, w') \<Rightarrow> Some (Inl e, w')
           | (Inr cnt', w') \<Rightarrow>
               walk_loop fuel E input_dir output_dir scale width height simplify max_dist
                 (map (path_join top_dir) dirs @ stack) cnt' w'))"

definition process_directory ::
  "nat \<Rightarrow> 'svg env \<Rightarrow> string \<Rightarrow> string \<Rightarrow> real \<Rightarrow> int \<Rightarrow> int \<Rightarrow> bool \<Rightarrow> int \<Rightarrow>
   world \<Rightarrow> ((exn + nat \<times> nat) \<times> world) option" where
  "process_directory fuel E input_dir output_dir scale width height simplify max_dist w =
     (case os_makedirs output_dir w of
        (Inl e, w') \<Rightarrow> Some (Inl e, w')
      | (Inr u, w') \<Rightarrow>
          walk_loop fuel E input_dir output_dir scale width height simplify max_dist
            [input_dir] (0, 0) w')"

subsection \<open>The command line\<close>

text \<open>
  \<open>main\<close> from the parsed arguments on. It returns, or exits with a status
  (\<^verbatim>\<open>parser.error\<close> writes its message to standard error and exits with status 2), or an
  exception escapes it.
\<close>

record args =
  arg_input :: "string option"
  arg_output :: "string option"
  arg_input_dir :: "string option"
  arg_output_dir :: "string option"
  arg_scale :: real
  arg_width :: int
  arg_height :: int
  arg_max_dist :: int
  arg_simplify :: bool

definition default_args :: args where
  "default_args =
     \<lparr>arg_input = None, arg_output = None, arg_input_dir = None, arg_output_dir = None,
      arg_scale = 1, arg_width = 200, arg_height = 200, arg_max_dist = 5,
      arg_simplify = False\<rparr>"

datatype outcome = Returned | SystemExit int | Uncaught exn

fun exit_status :: "outcome \<Rightarrow> int" where
  "exit_status Returned = 0"
| "exit_status (SystemExit n) = n"
| "exit_status (Uncaught e) = 1"

definition parser_error :: "string \<Rightarrow> world \<Rightarrow> outcome \<times> world" where
  "parser_error msg w = (SystemExit 2, w\<lparr>stderr := stderr w @ [msg]\<rparr>)"

definition main :: "nat \<Rightarrow> 'svg env \<Rightarrow> args \<Rightarrow> world \<Rightarrow> (outcome \<times> world) option" where
  "main fuel E a w =
     (let single_mode = (arg_input a \<noteq> None);
          batch_mode = (arg_input_dir a \<noteq> None)
      in
      if \<not> single_mode \<and> \<not> batch_mode then
        Some (parser_error
          ''Please specify --input for single file or --input_dir for batch processing'' w)
      else if single_mode \<and> batch_mode then
        Some (parser_error ''Cannot use both --input and --input_dir simultaneously'' w)
      else
        (case (arg_input a, arg_input_dir a) of
           (Some inp, _) \<Rightarrow>
             (let out = (case arg_output a of
                           None \<Rightarrow> (case splitext inp of (base, ext) \<Rightarrow> base @ ''_processed'' @ ext)
                         | Some out \<Rightarrow> out)
              in case process_single_file E inp out (arg_scale a) (arg_width a) (arg_height a)
                        (arg_simplify a) (arg_max_dist a) w of
                   (Inl e, w') \<Rightarrow> Some (Uncaught e, w')
                 | (Inr success, w') \<Rightarrow>
                     (if success then Some (Returned, snd (print (ProcessingComplete out) w'))
                      else Some (SystemExit 1, snd (print (ProcessingFailed inp) w'))))
         | (None, Some dir) \<Rightarrow>
             (let out_dir = (case arg_output_dir a of
                               None \<Rightarrow> dir @ ''_processed''
                             | Some d \<Rightarrow> d)
              in case process_directory fuel E dir out_dir (arg_scale a) (arg_width a)
                        (arg_height a) (arg_simplify a) (arg_max_dist a) w of
                   None \<Rightarrow> None
                 | Some (Inl e, w') \<Rightarrow> Some (Uncaught e, w')
                 | Some (Inr (success, failure), w') \<Rightarrow>
                     Some (Returned, snd (print (BatchComplete success failure) w')))
         | (None, None) \<Rightarrow>
             Some (parser_error
               ''Please specify --input for single file or --input_dir for batch processing'' w)))"

section \<open>A sample instance\<close>

text \<open>
  A small executable and library, and a small file system, on which the model can be
  evaluated: the executable copies its input to its output and fails on the text \<open><svg\<close>
  (or when the input is missing); the library rejects the text \<open><svg>\<close>, and a document
  is a view box with the text loaded.
\<close>

definition sample_picosvg :: "string \<Rightarrow> world \<Rightarrow> proc_result" where
  "sample_picosvg p w =
     (case lookup (fs w) (components (cwd w) p) of
        Some (File c) \<Rightarrow> (if c = ''<svg'' then Exited 1 ''<'' else Exited 0 c)
      | _ \<Rightarrow> Exited 1 [])"

definition sample_env :: "(bbox \<times> string) env" where
  "sample_env =
     \<lparr>run_picosvg = sample_picosvg,
      do_load_svg = (\<lambda>c. if c = ''<svg>'' then Inl (LibraryError ''parse'') else Inr (Bbox 24 24, c)),
      do_zoom = (\<lambda>f d. Inr d),
      do_normalize = (\<lambda>b d. Inr (b, snd d)),
      do_simplify_arcs = Inr,
      do_simplify_heuristic = Inr,
      do_split = (\<lambda>n d. Inr d),
      do_save_svg = (\<lambda>d. Saved (snd d))\<rparr>"

definition sample_world :: world where
  "sample_world =
     \<lparr>fs = Dir [(''w'', Dir [(''in'', Dir
            [(''a.svg'', File ''<svg/>''),
             (''sub'', Dir [(''b.svg'', File ''<svg''), (''c.txt'', File ''x''),
                           (''d.svg'', File ''<svg>''), (''e.svg'', File [])])])])],
      cwd = ''/w'', stdout = [], stderr = [], calls = []\<rparr>"

definition sample_vb :: "bbox \<times> string \<Rightarrow> bbox" where
  "sample_vb d = fst d"

section \<open>Notions used in the properties\<close>

text \<open>
  A proper name is what a directory entry can be called: not empty, not \<open>.\<close> or \<open>..\<close>,
  and without a slash. \<open>absolute\<close> is the path that \<open>abspath\<close> normalises, and
  \<open>norm_comps\<close> the components \<open>normpath\<close> keeps of a path that starts with a slash.
\<close>

definition proper :: "string \<Rightarrow> bool" where
  "proper n = (n \<noteq> [] \<and> n \<noteq> ''.'' \<and> n \<noteq> ''..'' \<and> CHR ''/'' \<notin> set n)"

definition norm_comps :: "string \<Rightarrow> string list" where
  "norm_comps s = foldl (norm_step True) [] (split_sep s)"

definition absolute :: "string \<Rightarrow> string \<Rightarrow> string" where
  "absolute wd p = (if isabs p then p else path_join wd p)"









section \<open>Properties of the file system\<close>


lemma write_file_lookup:
  "write_file t ps c = Inr t' \<Longrightarrow> lookup t' ps = Some (File c)"
proof (induction t ps c arbitrary: t' rule: write_file.induct)
  case (4 es n ns c)
  then show ?case
    by (auto split: option.splits sum.splits if_splits simp: update_conv')
qed simp_all

lemma write_file_is_Dir:
  "write_file t ps c = Inr t' \<Longrightarrow> is_Dir t' = is_Dir t"
  by (cases t; cases ps) (auto split: option.splits sum.splits if_splits)

lemma write_file_again:
  "lookup t ps = Some (File old) \<Longrightarrow> \<exists>t'. write_file t ps c = Inr t'"
proof (induction t ps arbitrary: rule: lookup.induct)
  case (3 es n ns)
  then show ?case by (auto split: option.splits)
qed simp_all

lemma write_file_not_CalledProcessError:
  "write_file t ps c = Inl e \<Longrightarrow> \<not> is_CalledProcessError e"
  by (induction t ps c rule: write_file.induct) (auto split: option.splits sum.splits if_splits)

lemma mkdirs_is_Dir: "mkdirs t ps = Inr t' \<Longrightarrow> is_Dir t'"
  by (cases t; cases ps) (auto split: sum.splits)

lemma set_contents_lookup:
  "lookup t ps = Some (File old) \<Longrightarrow> lookup (set_contents t ps c) ps = Some (File c)"
  using write_file_again[of t ps old c] by (auto simp: set_contents_def write_file_lookup)

lemma set_contents_is_Dir: "is_Dir (set_contents t ps c) = is_Dir t"
  by (auto simp: set_contents_def write_file_is_Dir split: sum.splits)


subsection \<open>Effects of the calls\<close>

lemma resolve_fs_update [simp]: "resolve (w\<lparr>fs := t\<rparr>) p = resolve w p"
  by (simp add: resolve_def)

lemma resolve_stdout_update [simp]: "resolve (w\<lparr>stdout := s\<rparr>) p = resolve w p"
  by (simp add: resolve_def)

lemma resolve_calls_update [simp]: "resolve (w\<lparr>calls := cs\<rparr>) p = resolve w p"
  by (simp add: resolve_def)

lemma os_makedirs_ok:
  "os_makedirs p w = (Inr u, w1) \<Longrightarrow> \<exists>t. w1 = w\<lparr>fs := t\<rparr> \<and> is_Dir t"
  by (auto simp: os_makedirs_def mkdirs_is_Dir split: option.splits sum.splits)

text \<open>
  Whenever \<open>preprocess_svg\<close> returns, with either answer, the output path holds a regular
  file: \<^verbatim>\<open>open(output_path, "w")\<close> created it and nothing removed it.
\<close>

lemma preprocess_svg_returns:
  assumes "preprocess_svg E inp out w1 = (Inr b, w2)"
  shows "\<exists>ps c. resolve w2 out = Some ps \<and> lookup (fs w2) ps = Some (File c) \<and>
           calls w2 = calls w1 \<and> cwd w2 = cwd w1 \<and> stderr w2 = stderr w1 \<and>
           is_Dir (fs w2) = is_Dir (fs w1)"
proof -
  from assms obtain ps t where ps: "resolve w1 out = Some ps"
    and t: "write_file (fs w1) ps [] = Inr t"
    by (auto simp: preprocess_svg_def try_except_def bind_def open_w_def
        dest: write_file_not_CalledProcessError split: option.splits sum.splits prod.splits if_splits)
  have comps: "components (cwd w1) out = ps"
    using ps by (auto simp: resolve_def split: if_splits)
  have l: "lookup t ps = Some (File [])" and d: "is_Dir t = is_Dir (fs w1)"
    using t by (simp_all add: write_file_lookup write_file_is_Dir)
  show ?thesis
    using assms ps t comps l d set_contents_lookup[OF l]
    by (auto simp: preprocess_svg_def try_except_def bind_def open_w_def subprocess_run_def
        print_def ret_def Let_def set_contents_is_Dir
        split: proc_result.splits if_splits)
qed







lemma os_path_getsize_frame: "os_path_getsize p w = (r, w') \<Longrightarrow> w' = w"
  by (auto simp: os_path_getsize_def split: option.splits node.splits)



section \<open>Properties of the script\<close>

lemma preprocessing_failure_leaves_output:
  assumes mk: "os_makedirs (if dirname out = [] then ''.'' else dirname out) w = (Inr (), w1)"
    and pre: "preprocess_svg E inp out w1 = (Inr False, w2)"
  shows "\<exists>w'. process_single_file E inp out scale width height simplify max_dist w = (Inr False, w')
           \<and> os_path_exists out w' = (Inr True, w') \<and> calls w' = calls w"
proof -
  from preprocess_svg_returns[OF pre] obtain ps c where
    "resolve w2 out = Some ps" "lookup (fs w2) ps = Some (File c)" "calls w2 = calls w1" by blast
  moreover from os_makedirs_ok[OF mk] have "calls w1 = calls w" by auto
  ultimately show ?thesis
    using mk pre
    by (auto simp: process_single_file_def try_except_def bind_def print_def ret_def
        os_path_exists_def)
qed



subsection \<open>splitext and dirname\<close>

lemma rfind_split:
  "s = rev (dropWhile (\<lambda>x. x \<noteq> c) (rev s)) @ rev (takeWhile (\<lambda>x. x \<noteq> c) (rev s))"
  by (metis rev_append rev_rev_ident takeWhile_dropWhile_id)

lemma nat_rfind: "nat (rfind s c + 1) = length (dropWhile (\<lambda>x. x \<noteq> c) (rev s))"
  by (simp add: rfind_def)

lemma drop_after_rfind: "nat (rfind s c + 1) \<le> m \<Longrightarrow> c \<notin> set (drop m s)"
proof -
  assume m: "nat (rfind s c + 1) \<le> m"
  let ?d = "rev (dropWhile (\<lambda>x. x \<noteq> c) (rev s))"
  let ?t = "rev (takeWhile (\<lambda>x. x \<noteq> c) (rev s))"
  have s: "s = ?d @ ?t" by (rule rfind_split)
  have "length ?d \<le> m" using m by (simp add: nat_rfind)
  then have "drop m (?d @ ?t) = drop (m - length ?d) ?t" by simp
  then have "set (drop m s) \<subseteq> set ?t" using s set_drop_subset by metis
  moreover have "c \<notin> set ?t" using set_takeWhileD by fastforce
  ultimately show ?thesis by blast
qed

lemma rfind_append:
  assumes "c \<notin> set x"
  shows "rfind (b @ x) c = rfind b c"
proof -
  have "dropWhile (\<lambda>y. y \<noteq> c) (rev x @ rev b) = dropWhile (\<lambda>y. y \<noteq> c) (rev b)"
    using assms by (intro dropWhile_append2) auto
  then show ?thesis by (simp add: rfind_def)
qed

lemma rfind_le: "nat (rfind b c + 1) \<le> length b"
  using length_dropWhile_le[of "\<lambda>x. x \<noteq> c" "rev b"] by (simp add: nat_rfind)

lemma dirname_append: "CHR ''/'' \<notin> set x \<Longrightarrow> dirname (b @ x) = dirname b"
  using rfind_le[of b "CHR ''/''"] by (simp add: dirname_def rfind_append Let_def)

lemma splitext_append: "fst (splitext p) @ snd (splitext p) = p"
  by (simp add: splitext_def Let_def)

lemma splitext_ext_no_sep: "CHR ''/'' \<notin> set (snd (splitext p))"
proof (cases "rfind p CHR ''.'' > rfind p CHR ''/''")
  case True
  then have "nat (rfind p CHR ''/'' + 1) \<le> nat (rfind p CHR ''.'')" by simp
  from drop_after_rfind[OF this] show ?thesis by (simp add: splitext_def Let_def)
next
  case False
  then show ?thesis by (simp add: splitext_def Let_def)
qed

lemma dirname_processed:
  "dirname (fst (splitext p) @ ''_processed'' @ snd (splitext p)) = dirname p"
proof -
  have "CHR ''/'' \<notin> set (''_processed'' @ snd (splitext p))"
    using splitext_ext_no_sep[of p] by simp
  then have "dirname (fst (splitext p) @ ''_processed'' @ snd (splitext p)) = dirname (fst (splitext p))"
    by (rule dirname_append)
  also have "\<dots> = dirname (fst (splitext p) @ snd (splitext p))"
    using dirname_append[OF splitext_ext_no_sep[of p], of "fst (splitext p)"] by simp
  finally show ?thesis by (simp add: splitext_append)
qed

text \<open>
  Claim C4. In single-file mode without \<^verbatim>\<open>--output\<close>, \<open>main\<close> calls
  \<open>process_single_file\<close> on the input path and the output path
  \<open>base @ ''_processed'' @ ext\<close>, where \<open>(base, ext) = splitext input\<close>, and ends as that
  call tells it to (the same path is the one it prints on success); it runs as it does
  when that path is given with \<^verbatim>\<open>--output\<close>. The two parts make up the input path, and
  the output lies in the directory of the input.
\<close>

theorem default_output_is_sibling:
  assumes "arg_input a = Some p" and "arg_input_dir a = None" and "arg_output a = None"
  shows "main fuel E a w =
           (case process_single_file E p (fst (splitext p) @ ''_processed'' @ snd (splitext p))
                   (arg_scale a) (arg_width a) (arg_height a) (arg_simplify a) (arg_max_dist a) w of
              (Inl e, w') \<Rightarrow> Some (Uncaught e, w')
            | (Inr success, w') \<Rightarrow>
                (if success
                 then Some (Returned,
                        w'\<lparr>stdout := stdout w' @
                          [ProcessingComplete
                             (fst (splitext p) @ ''_processed'' @ snd (splitext p))]\<rparr>)
                 else Some (SystemExit 1, w'\<lparr>stdout := stdout w' @ [ProcessingFailed p]\<rparr>)))
         \<and> main fuel E a w =
           main fuel E (a\<lparr>arg_output := Some (fst (splitext p) @ ''_processed'' @ snd (splitext p))\<rparr>) w
         \<and> fst (splitext p) @ snd (splitext p) = p
         \<and> dirname (fst (splitext p) @ ''_processed'' @ snd (splitext p)) = dirname p"
proof -
  have 1: "main fuel E a w =
           (case process_single_file E p (fst (splitext p) @ ''_processed'' @ snd (splitext p))
                   (arg_scale a) (arg_width a) (arg_height a) (arg_simplify a) (arg_max_dist a) w of
              (Inl e, w') \<Rightarrow> Some (Uncaught e, w')
            | (Inr success, w') \<Rightarrow>
                (if success
                 then Some (Returned,
                        w'\<lparr>stdout := stdout w' @
                          [ProcessingComplete
                             (fst (splitext p) @ ''_processed'' @ snd (splitext p))]\<rparr>)
                 else Some (SystemExit 1, w'\<lparr>stdout := stdout w' @ [ProcessingFailed p]\<rparr>)))"
    using assms by (simp add: main_def case_prod_beta print_def Let_def split: sum.splits)
  have 2: "main fuel E a w =
          main fuel E (a\<lparr>arg_output := Some (fst (splitext p) @ ''_processed'' @ snd (splitext p))\<rparr>) w"
    using assms by (simp add: main_def case_prod_beta)
  from 1 2 show ?thesis
    by (intro conjI splitext_append dirname_processed)
qed

text \<open>
  Claim C5. In single-file mode, when \<open>process_single_file\<close> returns \<open>False\<close> the process
  exits with status 1, and when it returns \<open>True\<close>, \<open>main\<close> returns and the exit status
  is 0.
\<close>

theorem single_file_exit_status:
  assumes "arg_input a = Some inp" and "arg_input_dir a = None"
    and "out = (case arg_output a of
                  None \<Rightarrow> fst (splitext inp) @ ''_processed'' @ snd (splitext inp)
                | Some p \<Rightarrow> p)"
    and "process_single_file E inp out (arg_scale a) (arg_width a) (arg_height a)
           (arg_simplify a) (arg_max_dist a) w = (Inr ok, w')"
  shows "\<exists>st w''. main fuel E a w = Some (st, w'') \<and>
           (if ok then st = Returned \<and> exit_status st = 0
            else st = SystemExit 1 \<and> exit_status st = 1)"
  using assms by (cases ok) (auto simp: main_def case_prod_beta print_def split: option.splits)

text \<open>
  Claim C6. With both \<^verbatim>\<open>--input\<close> and \<^verbatim>\<open>--input_dir\<close>, or with neither, \<open>main\<close> ends
  in a parser error (exit status 2, a message on standard error) and nothing else of the
  state changes: no file is touched and no library call is made.
\<close>

theorem modes_mutually_exclusive:
  assumes "(arg_input a \<noteq> None \<and> arg_input_dir a \<noteq> None) \<or>
           (arg_input a = None \<and> arg_input_dir a = None)"
  shows "\<exists>msg. main fuel E a w = Some (SystemExit 2, w\<lparr>stderr := stderr w @ [msg]\<rparr>)"
  using assms by (auto simp: main_def parser_error_def)


lemma process_svg_viewbox:
  assumes "\<forall>b d d'. do_normalize E b d = Inr d' \<longrightarrow> vb d' = b"
    and "\<forall>d d'. do_simplify_arcs E d = Inr d' \<longrightarrow> vb d' = vb d"
    and "\<forall>d d'. do_simplify_heuristic E d = Inr d' \<longrightarrow> vb d' = vb d"
    and "\<forall>n d d'. do_split E n d = Inr d' \<longrightarrow> vb d' = vb d"
    and "process_svg E svg scale width height simplify max_dist w = (Inr doc, w')"
  shows "vb doc = Bbox width height"
  using assms(5)
  apply (simp add: process_svg_def bind_def ret_def lib_call_def svg_zoom_def svg_normalize_def
      svg_simplify_arcs_def svg_simplify_heuristic_def svg_split_def
      split: sum.splits if_splits)
  using assms(1-4) apply metis
  using assms(1-4) apply metis
  done

text \<open>
  Claim C9. The view box of a document is a notion of the library, here a function \<open>vb\<close>
  of which the library is assumed to say: \<open>normalize\<close> sets it to its argument, and
  \<open>simplify_arcs\<close>, \<open>simplify_heuristic\<close> and \<open>split\<close> leave it as it is. Then, whenever
  \<open>process_single_file\<close> returns \<open>True\<close>, the output file holds the text saved for a
  document whose view box is \<open>Bbox width height\<close>.
\<close>

theorem saved_document_viewbox:
  assumes "\<forall>b d d'. do_normalize E b d = Inr d' \<longrightarrow> vb d' = b"
    and "\<forall>d d'. do_simplify_arcs E d = Inr d' \<longrightarrow> vb d' = vb d"
    and "\<forall>d d'. do_simplify_heuristic E d = Inr d' \<longrightarrow> vb d' = vb d"
    and "\<forall>n d d'. do_split E n d = Inr d' \<longrightarrow> vb d' = vb d"
    and ok: "process_single_file E inp out scale width height simplify max_dist w = (Inr True, w')"
  shows "\<exists>ps doc c. resolve w' out = Some ps \<and> lookup (fs w') ps = Some (File c) \<and>
           do_save_svg E doc = Saved c \<and> vb doc = Bbox width height"
proof -
  let ?body = "bind (os_makedirs (if dirname out = [] then ''.'' else dirname out)) (\<lambda>_.
        bind (preprocess_svg E inp out) (\<lambda>ok.
        if \<not> ok then
          bind (print (SkippingPreprocessingFailed inp)) (\<lambda>_. ret False)
        else
          bind (os_path_getsize out) (\<lambda>n_bytes.
          if n_bytes = 0 then
            bind (print (SkippingEmpty out)) (\<lambda>_.
            bind (os_remove out) (\<lambda>_.
            ret False))
          else
            bind (SVG_load_svg E out) (\<lambda>svg.
            bind (process_svg E svg scale width height simplify max_dist) (\<lambda>svg.
            bind (svg_save_svg E svg out) (\<lambda>_.
            bind (print (SavedProcessed out)) (\<lambda>_.
            ret True)))))))"
  have handler_False: "\<And>e w3 r w4. bind (print (ErrorProcessing inp e)) (\<lambda>_.
            bind (os_path_exists out) (\<lambda>found.
            bind (if found then os_remove out else ret ()) (\<lambda>_.
            ret False))) w3 = (r, w4) \<Longrightarrow> r \<noteq> Inr True"
    by (auto simp: bind_def ret_def print_def os_path_exists_def split: prod.splits sum.splits if_splits option.splits)
  have body: "?body w = (Inr True, w')"
  proof (cases "?body w")
    case (Pair r wb)
    show ?thesis
    proof (cases r)
      case (Inl e)
      with Pair ok handler_False show ?thesis
        unfolding process_single_file_def try_except_def by (auto split: prod.splits)
    next
      case (Inr b)
      with Pair ok show ?thesis
        unfolding process_single_file_def try_except_def by auto
    qed
  qed
  then obtain u w1 where mk: "os_makedirs (if dirname out = [] then ''.'' else dirname out) w = (Inr u, w1)"
    by (auto simp: bind_def[of "os_makedirs _"] split: prod.splits sum.splits)
  from body mk obtain w2 where pre: "preprocess_svg E inp out w1 = (Inr True, w2)"
    by (auto simp: bind_def[of "os_makedirs _"] bind_def[of "preprocess_svg _ _ _"] bind_def[of "print _"] ret_def
        split: prod.splits sum.splits if_splits)
  from body mk pre obtain n where size: "os_path_getsize out w2 = (Inr n, w2)" and n: "n \<noteq> 0"
    using os_path_getsize_frame[of out w2]
    by (auto simp: bind_def[of "os_makedirs _"] bind_def[of "preprocess_svg _ _ _"]
        bind_def[of "os_path_getsize _"] bind_def[of "print _"] bind_def[of "os_remove _"] ret_def
        split: prod.splits sum.splits if_splits)
  from body mk pre size n have rest: "bind (SVG_load_svg E out) (\<lambda>svg.
            bind (process_svg E svg scale width height simplify max_dist) (\<lambda>svg.
            bind (svg_save_svg E svg out) (\<lambda>_.
            bind (print (SavedProcessed out)) (\<lambda>_.
            ret True)))) w2 = (Inr True, w')"
    by (simp add: bind_def[of "os_makedirs _"] bind_def[of "preprocess_svg _ _ _"]
        bind_def[of "os_path_getsize _"])
  then obtain svg w3 where load: "SVG_load_svg E out w2 = (Inr svg, w3)"
    by (auto simp: bind_def[of "SVG_load_svg _ _"] split: prod.splits sum.splits)
  from rest load obtain doc w4 where
    proc: "process_svg E svg scale width height simplify max_dist w3 = (Inr doc, w4)"
    by (auto simp: bind_def[of "SVG_load_svg _ _"] bind_def[of "process_svg _ _ _ _ _ _ _"]
        split: prod.splits sum.splits)
  from rest load proc obtain w5 where save: "svg_save_svg E doc out w4 = (Inr (), w5)"
    and w': "w' = w5\<lparr>stdout := stdout w5 @ [SavedProcessed out]\<rparr>"
    by (auto simp: bind_def[of "SVG_load_svg _ _"] bind_def[of "process_svg _ _ _ _ _ _ _"]
        bind_def[of "svg_save_svg _ _ _"] bind_def[of "print _"] print_def ret_def
        split: prod.splits sum.splits)
  from save obtain c ps where c: "do_save_svg E doc = Saved c"
    and r5: "resolve w5 out = Some ps" and l5: "lookup (fs w5) ps = Some (File c)"
    by (auto simp: svg_save_svg_def bind_def lib_call_def write_text_def write_file_lookup
        split: save_result.splits option.splits sum.splits prod.splits)
  have "vb doc = Bbox width height"
    using process_svg_viewbox[OF assms(1-4) proc] .
  with c r5 l5 w' show ?thesis by auto
qed

text \<open>
  Claim C1, evaluated on the sample: for the input \<^verbatim>\<open>in/sub/b.svg\<close> the executable exits
  with status 1 after writing \<open><\<close>. \<open>process_single_file\<close> returns \<open>False\<close>, and the output
  path still names the file that \<^verbatim>\<open>open(output_path, "w")\<close> made, holding what the
  executable wrote. (\<open>preprocessing_failure_leaves_output\<close> says so for every input.)
\<close>

theorem preprocessing_failure_output_remains:
  "fst (os_makedirs ''out'' sample_world) = Inr () \<and>
   fst (open_w ''out/b.svg'' (snd (os_makedirs ''out'' sample_world))) = Inr () \<and>
   run_picosvg sample_env ''in/sub/b.svg''
     (snd (open_w ''out/b.svg'' (snd (os_makedirs ''out'' sample_world)))) = Exited 1 ''<'' \<and>
   fst (process_single_file sample_env ''in/sub/b.svg'' ''out/b.svg'' 1 200 200 False 5
          sample_world) = Inr False \<and>
   fst (os_path_exists ''out/b.svg''
          (snd (process_single_file sample_env ''in/sub/b.svg'' ''out/b.svg'' 1 200 200 False 5
                  sample_world))) = Inr True \<and>
   lookup (fs (snd (process_single_file sample_env ''in/sub/b.svg'' ''out/b.svg'' 1 200 200
                      False 5 sample_world))) [''w'', ''out'', ''b.svg''] = Some (File ''<'')"
  by code_simp



theorem default_output_is_sibling_witness:
  "main 0 sample_env (default_args\<lparr>arg_input := Some ''in/a.svg''\<rparr>) sample_world =
     Some (Returned,
           snd (process_single_file sample_env ''in/a.svg'' ''in/a_processed.svg'' 1 200 200 False 5
                  sample_world)
           \<lparr>stdout :=
              [PreprocessedSaved ''in/a_processed.svg'', SavedProcessed ''in/a_processed.svg'',
               ProcessingComplete ''in/a_processed.svg'']\<rparr>)
   \<and> lookup (fs (snd (process_single_file sample_env ''in/a.svg'' ''in/a_processed.svg'' 1 200 200
                        False 5 sample_world))) [''w'', ''in'', ''a_processed.svg''] =
       Some (File ''<svg/>'')
   \<and> splitext ''in/a.svg'' = (''in/a'', ''.svg'')
   \<and> dirname ''in/a_processed.svg'' = dirname ''in/a.svg''"
proof -
  let ?a = "default_args\<lparr>arg_input := Some ''in/a.svg''\<rparr>"
  let ?x = "process_single_file sample_env ''in/a.svg'' ''in/a_processed.svg'' 1 200 200 False 5
              sample_world"
  have s: "splitext ''in/a.svg'' = (''in/a'', ''.svg'')" by code_simp
  have a: "arg_input ?a = Some ''in/a.svg''" "arg_input_dir ?a = None" "arg_output ?a = None"
    by (simp_all add: default_args_def)
  have v: "arg_scale ?a = 1" "arg_width ?a = 200" "arg_height ?a = 200" "arg_simplify ?a = False"
    "arg_max_dist ?a = 5"
    by (simp_all add: default_args_def)
  have f: "fst ?x = Inr True" by code_simp
  have o: "stdout (snd ?x) =
             [PreprocessedSaved ''in/a_processed.svg'', SavedProcessed ''in/a_processed.svg'']"
    by code_simp
  have l: "lookup (fs (snd ?x)) [''w'', ''in'', ''a_processed.svg''] = Some (File ''<svg/>'')"
    by code_simp
  define w1 where "w1 = snd ?x"
  have x: "?x = (Inr True, w1)" using f unfolding w1_def by (metis prod.collapse)
  have c: "''in/a'' @ ''_processed'' @ ''.svg'' = ''in/a_processed.svg''" by simp
  note h = default_output_is_sibling[OF a, of 0 sample_env sample_world, unfolded s v fst_conv snd_conv c]
  have "main 0 sample_env ?a sample_world =
     Some (Returned, w1\<lparr>stdout := stdout w1 @ [ProcessingComplete ''in/a_processed.svg'']\<rparr>)"
    using h[THEN conjunct1] by (simp add: x)
  then have m: "main 0 sample_env ?a sample_world =
     Some (Returned, snd ?x\<lparr>stdout := stdout (snd ?x) @ [ProcessingComplete ''in/a_processed.svg'']\<rparr>)"
    unfolding w1_def .
  have d: "dirname ''in/a_processed.svg'' = dirname ''in/a.svg''"
    using h by simp
  from m o l s d show ?thesis by simp
qed

theorem single_file_exit_status_witness:
  "(\<exists>w''. main 0 sample_env (default_args\<lparr>arg_input := Some ''in/sub/d.svg''\<rparr>) sample_world =
            Some (SystemExit 1, w''))
   \<and> fst (process_single_file sample_env ''in/sub/d.svg'' ''in/sub/d_processed.svg''
             1 200 200 False 5 sample_world) = Inr False"
proof -
  let ?a = "default_args\<lparr>arg_input := Some ''in/sub/d.svg''\<rparr>"
  let ?x = "process_single_file sample_env ''in/sub/d.svg'' ''in/sub/d_processed.svg''
             1 200 200 False 5 sample_world"
  have a: "arg_input ?a = Some ''in/sub/d.svg''" "arg_input_dir ?a = None"
    by (simp_all add: default_args_def)
  have s: "splitext ''in/sub/d.svg'' = (''in/sub/d'', ''.svg'')" by code_simp
  have out: "''in/sub/d_processed.svg'' =
     (case arg_output ?a of
        None \<Rightarrow> fst (splitext ''in/sub/d.svg'') @ ''_processed'' @ snd (splitext ''in/sub/d.svg'')
      | Some p \<Rightarrow> p)"
    unfolding s by (simp add: default_args_def)
  have f: "fst ?x = Inr False" by code_simp
  then have x: "?x = (Inr False, snd ?x)" by (metis prod.collapse)
  have r: "process_single_file sample_env ''in/sub/d.svg'' ''in/sub/d_processed.svg''
             (arg_scale ?a) (arg_width ?a) (arg_height ?a) (arg_simplify ?a) (arg_max_dist ?a)
             sample_world = (Inr False, snd ?x)"
    using x by (simp add: default_args_def)
  from single_file_exit_status[OF a out r, of 0]
  have "\<exists>w''. main 0 sample_env ?a sample_world = Some (SystemExit 1, w'')"
    by simp
  with f show ?thesis by blast
qed

theorem modes_mutually_exclusive_witness:
  "(\<exists>msg. main 0 sample_env default_args sample_world =
      Some (SystemExit 2, sample_world\<lparr>stderr := stderr sample_world @ [msg]\<rparr>))
   \<and> arg_input default_args = None \<and> arg_input_dir default_args = None"
proof -
  have a: "arg_input default_args = None \<and> arg_input_dir default_args = None"
    by (simp add: default_args_def)
  then have "(arg_input default_args \<noteq> None \<and> arg_input_dir default_args \<noteq> None) \<or>
           (arg_input default_args = None \<and> arg_input_dir default_args = None)" by simp
  from modes_mutually_exclusive[OF this, of 0 sample_env sample_world] a show ?thesis by simp
qed


theorem saved_document_viewbox_witness:
  "\<exists>ps doc c. resolve (snd (process_single_file sample_env ''in/a.svg'' ''out/a.svg'' 1 200 100
                           False 5 sample_world)) ''out/a.svg'' = Some ps
     \<and> lookup (fs (snd (process_single_file sample_env ''in/a.svg'' ''out/a.svg'' 1 200 100
                           False 5 sample_world))) ps = Some (File c)
     \<and> do_save_svg sample_env doc = Saved c \<and> sample_vb doc = Bbox 200 100"
proof -
  let ?x = "process_single_file sample_env ''in/a.svg'' ''out/a.svg'' 1 200 100 False 5 sample_world"
  have ok: "?x = (Inr True, snd ?x)" by code_simp
  have 1: "\<forall>b d d'. do_normalize sample_env b d = Inr d' \<longrightarrow> sample_vb d' = b"
    and 2: "\<forall>d d'. do_simplify_arcs sample_env d = Inr d' \<longrightarrow> sample_vb d' = sample_vb d"
    and 3: "\<forall>d d'. do_simplify_heuristic sample_env d = Inr d' \<longrightarrow> sample_vb d' = sample_vb d"
    and 4: "\<forall>n d d'. do_split sample_env n d = Inr d' \<longrightarrow> sample_vb d' = sample_vb d"
    by (auto simp: sample_env_def sample_vb_def)
  from saved_document_viewbox[OF 1 2 3 4 ok] show ?thesis .
qed

section \<open>Paths and their components\<close>

lemma split_sep_not_Nil [simp]: "split_sep s \<noteq> []"
  by (induction s) (auto split: list.splits)

lemma split_sep_append_sep:
  "split_sep (a @ CHR ''/'' # b) = split_sep a @ split_sep b"
proof (induction a)
  case Nil
  then show ?case by simp
next
  case (Cons c a)
  then show ?case
    by (cases "split_sep a") (auto split: list.splits)
qed

lemma split_sep_no_sep: "CHR ''/'' \<notin> set n \<Longrightarrow> split_sep n = [n]"
  by (induction n) auto

lemma split_sep_elems: "x \<in> set (split_sep s) \<Longrightarrow> CHR ''/'' \<notin> set x"
proof (induction s arbitrary: x)
  case Nil
  then show ?case by simp
next
  case (Cons c s)
  then show ?case
    by (cases "split_sep s") (auto split: if_splits)
qed

lemma split_sep_join_sep:
  "cs \<noteq> [] \<Longrightarrow> \<forall>x\<in>set cs. CHR ''/'' \<notin> set x \<Longrightarrow> split_sep (join_sep cs) = cs"
proof (induction cs rule: join_sep.induct)
  case 1
  then show ?case by simp
next
  case (2 x)
  then show ?case by (simp add: split_sep_no_sep)
next
  case (3 x y ys)
  then show ?case by (simp add: split_sep_append_sep split_sep_no_sep)
qed

lemma split_sep_slashes:
  "split_sep (replicate k CHR ''/'' @ t) = replicate k [] @ split_sep t"
  by (induction k) auto

lemma split_sep_only_slashes:
  "split_sep (replicate k CHR ''/'') = replicate k [] @ [[]]"
  using split_sep_slashes[of k "[]"] by simp

lemma norm_step_Nil [simp]: "norm_step ini cs [] = cs"
  by (simp add: norm_step_def)

lemma norm_step_proper: "proper n \<Longrightarrow> norm_step ini cs n = cs @ [n]"
  by (auto simp: norm_step_def proper_def)

lemma foldl_norm_step_proper:
  "list_all proper ns \<Longrightarrow> foldl (norm_step ini) cs ns = cs @ ns"
  by (induction ns arbitrary: cs) (auto simp: norm_step_proper)

lemma norm_step_subset:
  assumes "y \<in> set (norm_step ini cs x)"
  shows "y \<in> set cs \<or> (y = x \<and> x \<noteq> [])"
proof (cases "x = [] \<or> x = ''.''")
  case True
  with assms have "y \<in> set cs" unfolding norm_step_def by (simp only: if_True)
  then show ?thesis ..
next
  case False
  note nf = this
  show ?thesis
  proof (cases "x \<noteq> ''..'' \<or> (\<not> ini \<and> cs = []) \<or> (cs \<noteq> [] \<and> last cs = ''..'')")
    case True
    with nf assms have "y \<in> set (cs @ [x])" unfolding norm_step_def by (simp only: if_True if_False)
    with nf show ?thesis by auto
  next
    case False
    with nf assms have "y \<in> set (if cs \<noteq> [] then butlast cs else cs)"
      unfolding norm_step_def by (simp only: if_True if_False)
    then show ?thesis by (auto dest: in_set_butlastD split: if_splits)
  qed
qed

lemma norm_step_elems:
  assumes "\<forall>x\<in>set cs. x \<noteq> [] \<and> CHR ''/'' \<notin> set x" and "CHR ''/'' \<notin> set x"
  shows "\<forall>y\<in>set (norm_step ini cs x). y \<noteq> [] \<and> CHR ''/'' \<notin> set y"
proof
  fix y assume "y \<in> set (norm_step ini cs x)"
  from norm_step_subset[OF this] assms show "y \<noteq> [] \<and> CHR ''/'' \<notin> set y" by blast
qed

lemma foldl_norm_step_elems:
  "\<forall>x\<in>set cs. x \<noteq> [] \<and> CHR ''/'' \<notin> set x \<Longrightarrow> \<forall>x\<in>set xs. CHR ''/'' \<notin> set x \<Longrightarrow>
     \<forall>x\<in>set (foldl (norm_step ini) cs xs). x \<noteq> [] \<and> CHR ''/'' \<notin> set x"
proof (induction xs arbitrary: cs)
  case Nil
  then show ?case by simp
next
  case (Cons x xs)
  have 1: "\<forall>y\<in>set (norm_step ini cs x). y \<noteq> [] \<and> CHR ''/'' \<notin> set y"
    using Cons.prems by (intro norm_step_elems) auto
  have 2: "\<forall>x\<in>set xs. CHR ''/'' \<notin> set x" using Cons.prems by auto
  from Cons.IH[OF 1 2] show ?case by simp
qed

lemma norm_comps_elems: "\<forall>x\<in>set (norm_comps s). x \<noteq> [] \<and> CHR ''/'' \<notin> set x"
  unfolding norm_comps_def
  by (rule foldl_norm_step_elems) (auto dest: split_sep_elems)

lemma filter_split_join:
  assumes "\<forall>x\<in>set cs. x \<noteq> [] \<and> CHR ''/'' \<notin> set x"
  shows "filter (\<lambda>x. x \<noteq> []) (split_sep (replicate k CHR ''/'' @ join_sep cs)) = cs"
proof (cases "cs = []")
  case True
  then show ?thesis by (simp add: split_sep_only_slashes)
next
  case False
  with assms have "split_sep (join_sep cs) = cs" by (intro split_sep_join_sep) auto
  moreover have "filter (\<lambda>x. x \<noteq> []) cs = cs" using assms by (induction cs) auto
  ultimately show ?thesis by (simp add: split_sep_slashes)
qed

lemma startswith_sep: "startswith s ''/'' = (\<exists>t. s = CHR ''/'' # t)"
  by (cases s) (auto simp: startswith_def)

lemma isabs_Cons: "isabs s = (\<exists>t. s = CHR ''/'' # t)"
  by (simp add: isabs_def startswith_sep)

lemma components_norm_comps:
  assumes "isabs wd"
  shows "components wd p = norm_comps (absolute wd p)"
proof -
  have abs: "isabs (absolute wd p)"
    using assms by (auto simp: absolute_def path_join_def isabs_Cons startswith_sep)
  then have ne: "absolute wd p \<noteq> []" and pos: "0 < initial_slashes (absolute wd p)"
    by (auto simp: isabs_Cons initial_slashes_def startswith_sep)
  have "normpath (absolute wd p) =
          replicate (initial_slashes (absolute wd p)) CHR ''/'' @ join_sep (norm_comps (absolute wd p))"
    using ne pos by (cases "initial_slashes (absolute wd p)") (auto simp: normpath_def norm_comps_def Let_def)
  then show ?thesis
    unfolding components_def abspath_def absolute_def[symmetric]
    by (simp add: filter_split_join[OF norm_comps_elems])
qed

lemma endswith_sep: "endswith s ''/'' = (\<exists>y. s = y @ ''/'')"
  by (auto simp: endswith_def suffix_def)

lemma endswith_last: "endswith s ''/'' = (s \<noteq> [] \<and> last s = CHR ''/'')"
  by (cases s rule: rev_cases) (auto simp: endswith_def suffix_def)

lemma startswith_Nil [simp]: "\<not> startswith [] ''/''"
  by (simp add: startswith_sep)

lemma startswith_append: "a \<noteq> [] \<Longrightarrow> startswith (a @ x) ''/'' = startswith a ''/''"
  by (cases a) (auto simp: startswith_sep)

lemma join_sep_proper:
  assumes "R \<noteq> []" and "list_all proper R"
  shows "join_sep R \<noteq> []" and "\<not> startswith (join_sep R) ''/''" and "split_sep (join_sep R) = R"
proof -
  obtain r rs where R: "R = r # rs" using assms(1) by (cases R) auto
  then have r: "proper r" using assms(2) by simp
  then obtain c cs where rc: "r = c # cs" "c \<noteq> CHR ''/''" by (cases r) (auto simp: proper_def)
  have "\<exists>t. join_sep R = c # t" using R rc by (cases rs) auto
  then show "join_sep R \<noteq> []" and "\<not> startswith (join_sep R) ''/''"
    using rc by (auto simp: startswith_sep)
  have "\<forall>x\<in>set R. CHR ''/'' \<notin> set x"
    using assms(2) by (auto simp: list_all_iff proper_def)
  with assms(1) show "split_sep (join_sep R) = R" by (rule split_sep_join_sep)
qed

lemma norm_comps_Nil [simp]: "norm_comps [] = []"
  by (simp add: norm_comps_def)

lemma norm_comps_append_sep:
  "norm_comps (x @ CHR ''/'' # b) = foldl (norm_step True) (norm_comps x) (split_sep b)"
  by (simp add: norm_comps_def split_sep_append_sep)


lemma norm_comps_path_join:
  assumes "R \<noteq> []" and "list_all proper R"
  shows "norm_comps (path_join x (join_sep R)) = norm_comps x @ R"
proof -
  note b = join_sep_proper[OF assms]
  show ?thesis
  proof (cases "x = []")
    case True
    then show ?thesis
      using b assms(2) by (simp add: path_join_def norm_comps_def foldl_norm_step_proper)
  next
    case False
    show ?thesis
    proof (cases "endswith x ''/''")
      case True
      then obtain y where y: "x = y @ ''/''" by (auto simp: endswith_sep)
      have "path_join x (join_sep R) = y @ CHR ''/'' # join_sep R"
        using b True y by (simp add: path_join_def)
      then show ?thesis
        using b assms(2) y by (simp add: norm_comps_append_sep foldl_norm_step_proper)
    next
      case nend: False
      have "path_join x (join_sep R) = x @ CHR ''/'' # join_sep R"
        using b nend False by (simp add: path_join_def)
      then show ?thesis
        using b assms(2) by (simp add: norm_comps_append_sep foldl_norm_step_proper)
    qed
  qed
qed

lemma path_join_assoc:
  assumes "a \<noteq> []" and "\<not> startswith a ''/''" and "b \<noteq> []" and "\<not> startswith b ''/''"
  shows "path_join wd (path_join a b) = path_join (path_join wd a) b"
proof -
  obtain c cs where a: "a = c # cs" "c \<noteq> CHR ''/''"
    using assms(1,2) by (cases a) (auto simp: startswith_sep)
  have e1: "endswith (wd @ a) ''/'' = endswith a ''/''" "endswith (wd @ ''/'' @ a) ''/'' = endswith a ''/''"
    using assms(1) by (simp_all add: endswith_last)
  have n1: "\<not> startswith (a @ b) ''/''" "\<not> startswith (a @ ''/'' @ b) ''/''"
    using a by (auto simp: startswith_sep)
  show ?thesis
    using assms e1 n1 by (auto simp: path_join_def)
qed

lemma absolute_path_join:
  assumes "isabs wd" and "b \<noteq> []" and "\<not> startswith b ''/''"
  shows "absolute wd (path_join a b) = path_join (absolute wd a) b"
proof (cases "a = []")
  case True
  obtain t where wd: "wd = CHR ''/'' # t" using assms(1) by (auto simp: isabs_Cons)
  have "path_join wd [] = wd \<or> path_join wd [] = wd @ ''/''"
    by (auto simp: path_join_def)
  moreover have "endswith (path_join wd []) ''/''"
    using wd by (auto simp: path_join_def endswith_sep startswith_sep)
  ultimately show ?thesis
    using True assms wd
    by (auto simp: absolute_def path_join_def isabs_def startswith_sep endswith_sep)
next
  case False
  show ?thesis
  proof (cases "isabs a")
    case True
    then have "isabs (path_join a b)"
      using assms False by (simp add: path_join_def isabs_def startswith_append)
    with True show ?thesis by (simp add: absolute_def)
  next
    case nabs: False
    then have na: "\<not> startswith a ''/''" by (simp add: isabs_def)
    then have "\<not> isabs (path_join a b)"
      using assms False by (simp add: path_join_def isabs_def startswith_append)
    with nabs show ?thesis
      using path_join_assoc[OF False na assms(2,3)] by (simp add: absolute_def)
  qed
qed

lemma components_path_join:
  assumes "isabs wd" and "R \<noteq> []" and "list_all proper R"
  shows "components wd (path_join a (join_sep R)) = components wd a @ R"
  using assms join_sep_proper[OF assms(2,3)]
  by (simp add: components_norm_comps absolute_path_join norm_comps_path_join)

lemma components_path_join1:
  assumes "isabs wd" and "proper n"
  shows "components wd (path_join a n) = components wd a @ [n]"
  using components_path_join[OF assms(1), of "[n]" a] assms(2) by simp

lemma components_foldl_path_join:
  assumes "isabs wd" and "list_all proper ds"
  shows "components wd (foldl path_join a ds) = components wd a @ ds"
  using assms(2)
  by (induction ds arbitrary: a) (simp_all add: components_path_join1[OF assms(1)])

lemma commonprefix_append [simp]: "commonprefix S (S @ R) = S"
  by (induction S) auto

lemma relpath_under:
  assumes "components wd p = components wd start @ R" and "R \<noteq> []" and "p \<noteq> []"
  shows "relpath wd p start = Inr (join_sep R)"
  using assms by (simp add: relpath_def Let_def)












section \<open>What the script leaves unchanged\<close>

lemma parallel_Cons_Cons [simp]: "parallel (n # ns) (m # ms) = (n \<noteq> m \<or> parallel ns ms)"
  by (auto simp: parallel_def)

lemma parallel_Nil [simp]: "\<not> parallel [] x" "\<not> parallel x []"
  by (simp_all add: parallel_def)

lemma lookup_Dir_Nil [simp]: "ms \<noteq> [] \<Longrightarrow> lookup (Dir []) ms = None"
  by (cases ms) auto




























section \<open>The directory walk\<close>















lemma path_join_not_Nil: "b \<noteq> [] \<Longrightarrow> path_join a b \<noteq> []"
  by (auto simp: path_join_def)








text \<open>
  Claim C10. Let \<open>root_dir\<close> be a directory the walk yields, that is the input directory
  joined with the names \<open>ds\<close> of the directories on the way down, and \<open>filename\<close> one of
  its files with the \<^verbatim>\<open>.svg\<close> ending. The path of the file relative to the input
  directory is \<open>ds\<close> and \<open>filename\<close> joined by slashes; the loop processes the file into
  the output directory joined with that relative path; the input file is the file
  \<open>ds @ [filename]\<close> below the input directory, and the output file is the file
  \<open>ds @ [filename]\<close> below the output directory.
\<close>

theorem hierarchy_preserved:
  assumes wd: "isabs (cwd w)" and ds: "list_all proper ds" and fn: "proper filename"
    and svg: "endswith filename ''.svg''"
    and root: "root_dir = foldl path_join input_dir ds"
  shows "relpath (cwd w) (path_join root_dir filename) input_dir = Inr (join_sep (ds @ [filename]))
     \<and> components (cwd w) (path_join root_dir filename) =
         components (cwd w) input_dir @ ds @ [filename]
     \<and> components (cwd w) (path_join output_dir (join_sep (ds @ [filename]))) =
         components (cwd w) output_dir @ ds @ [filename]
     \<and> process_files E input_dir output_dir scale width height simplify max_dist root_dir
         (filename # files) cnt w =
        (case process_single_file E (path_join root_dir filename)
                (path_join output_dir (join_sep (ds @ [filename])))
                scale width height simplify max_dist w of
           (Inl e, w') \<Rightarrow> (Inl e, w')
         | (Inr ok, w') \<Rightarrow>
             process_files E input_dir output_dir scale width height simplify max_dist root_dir
               files (if ok then (fst cnt + 1, snd cnt) else (fst cnt, snd cnt + 1)) w')"
proof -
  have r: "components (cwd w) root_dir = components (cwd w) input_dir @ ds"
    unfolding root by (rule components_foldl_path_join[OF wd ds])
  have inp: "components (cwd w) (path_join root_dir filename) =
         components (cwd w) input_dir @ ds @ [filename]"
    using components_path_join1[OF wd fn, of root_dir] r by simp
  have ne: "path_join root_dir filename \<noteq> []"
    using fn by (intro path_join_not_Nil) (simp add: proper_def)
  have rel: "relpath (cwd w) (path_join root_dir filename) input_dir =
               Inr (join_sep (ds @ [filename]))"
    using inp ne by (intro relpath_under) simp_all
  have out: "components (cwd w) (path_join output_dir (join_sep (ds @ [filename]))) =
         components (cwd w) output_dir @ ds @ [filename]"
    using components_path_join[OF wd, of "ds @ [filename]" output_dir] ds fn by simp
  have pf: "process_files E input_dir output_dir scale width height simplify max_dist root_dir
         (filename # files) cnt w =
        (case process_single_file E (path_join root_dir filename)
                (path_join output_dir (join_sep (ds @ [filename])))
                scale width height simplify max_dist w of
           (Inl e, w') \<Rightarrow> (Inl e, w')
         | (Inr ok, w') \<Rightarrow>
             process_files E input_dir output_dir scale width height simplify max_dist root_dir
               files (if ok then (fst cnt + 1, snd cnt) else (fst cnt, snd cnt + 1)) w')"
    using svg rel by (simp add: os_path_relpath_def Let_def)
  from rel inp out pf show ?thesis by (intro conjI)
qed

theorem hierarchy_preserved_witness:
  "relpath (cwd sample_world) (path_join ''in/sub'' ''d.svg'') ''in'' = Inr ''sub/d.svg''
   \<and> components (cwd sample_world) (path_join ''in/sub'' ''d.svg'') = [''w'', ''in'', ''sub'', ''d.svg'']
   \<and> components (cwd sample_world) (path_join ''out'' ''sub/d.svg'') =
       [''w'', ''out'', ''sub'', ''d.svg'']"
proof -
  have 1: "isabs (cwd sample_world)" by code_simp
  have 2: "list_all proper [''sub'']" by code_simp
  have 3: "proper ''d.svg''" by code_simp
  have 4: "endswith ''d.svg'' ''.svg''" by code_simp
  have 5: "''in/sub'' = foldl path_join ''in'' [''sub'']" by code_simp
  have 6: "join_sep ([''sub''] @ [''d.svg'']) = ''sub/d.svg''" by code_simp
  have 7: "components (cwd sample_world) ''in'' = [''w'', ''in'']"
    "components (cwd sample_world) ''out'' = [''w'', ''out'']" by code_simp+
  note h = hierarchy_preserved[OF 1 2 3 4 5, of "''out''" sample_env 1 200 200 False 5 "[]" "(0, 0)",
      unfolded 6 7]
  from h show ?thesis by (simp only: append.simps)
qed

end
